theory Spec2Isabelle
  imports
    Main
    "HOL-Library.AList"
    "HOL-Library.Char_ord"
    "HOL-Library.List_Lexorder"
    "HOL-Library.Multiset"
begin

section \<open>The CarsXE client: a shallow embedding\<close>

text \<open>
  The client builds a URL from the client configuration, an endpoint and a
  \<^verbatim>\<open>map[string]string\<close> of parameters, sends one HTTP request and decodes the
  response. Go strings are byte strings: \<^typ>\<open>string\<close>, a list of 8-bit \<^typ>\<open>char\<close>.
  A Go map that is ranged over is an association list whose order is the (unspecified)
  iteration order; its keys are distinct.
\<close>

subsection \<open>Package strings\<close>

text \<open>
  \<^verbatim>\<open>strings.TrimLeft(s, cutset)\<close> and \<^verbatim>\<open>strings.TrimRight(s, cutset)\<close> for a cutset of
  ASCII bytes (the client uses \<^verbatim>\<open>"/"\<close> only).
\<close>

definition TrimLeft :: "string \<Rightarrow> string \<Rightarrow> string" where
  "TrimLeft s cutset = dropWhile (\<lambda>c. c \<in> set cutset) s"

definition TrimRight :: "string \<Rightarrow> string \<Rightarrow> string" where
  "TrimRight s cutset = rev (dropWhile (\<lambda>c. c \<in> set cutset) (rev s))"

text \<open>
  \<^verbatim>\<open>strings.Cut(s, sep)\<close> for a one-byte separator: the text before the first
  separator and the text after it; the whole of \<open>s\<close> and the empty string when there
  is none.
\<close>

definition Cut :: "string \<Rightarrow> char \<Rightarrow> string \<times> string" where
  "Cut s sep = (takeWhile (\<lambda>c. c \<noteq> sep) s, drop 1 (dropWhile (\<lambda>c. c \<noteq> sep) s))"

text \<open>
  \<^verbatim>\<open>unicode.IsSpace\<close> holds of U+0009..U+000D, U+0020, U+0085, U+00A0, U+1680,
  U+2000..U+200A, U+2028, U+2029, U+202F, U+205F and U+3000. \<open>space_runes\<close> lists their
  UTF-8 encodings. A string starts (ends) with a white space rune exactly when it starts
  (ends) with one of these byte sequences: they are the shortest encodings, which is all
  the decoder accepts, and none ends in a byte that starts a rune.
\<close>

definition space_runes :: "string list" where
  "space_runes =
    [[CHR 0x09], [CHR 0x0A], [CHR 0x0B], [CHR 0x0C], [CHR 0x0D], [CHR 0x20],
     [CHR 0xC2, CHR 0x85], [CHR 0xC2, CHR 0xA0],
     [CHR 0xE1, CHR 0x9A, CHR 0x80],
     [CHR 0xE2, CHR 0x80, CHR 0x80], [CHR 0xE2, CHR 0x80, CHR 0x81],
     [CHR 0xE2, CHR 0x80, CHR 0x82], [CHR 0xE2, CHR 0x80, CHR 0x83],
     [CHR 0xE2, CHR 0x80, CHR 0x84], [CHR 0xE2, CHR 0x80, CHR 0x85],
     [CHR 0xE2, CHR 0x80, CHR 0x86], [CHR 0xE2, CHR 0x80, CHR 0x87],
     [CHR 0xE2, CHR 0x80, CHR 0x88], [CHR 0xE2, CHR 0x80, CHR 0x89],
     [CHR 0xE2, CHR 0x80, CHR 0x8A],
     [CHR 0xE2, CHR 0x80, CHR 0xA8], [CHR 0xE2, CHR 0x80, CHR 0xA9],
     [CHR 0xE2, CHR 0x80, CHR 0xAF], [CHR 0xE2, CHR 0x81, CHR 0x9F],
     [CHR 0xE3, CHR 0x80, CHR 0x80]]"

text \<open>The first white space rune that \<open>s\<close> starts with, if any.\<close>

definition leading_space :: "string list \<Rightarrow> string \<Rightarrow> string option" where
  "leading_space runes s = find (\<lambda>r. take (length r) s = r) runes"

text \<open>
  \<^verbatim>\<open>strings.TrimLeftFunc(s, unicode.IsSpace)\<close>: drop runes while they are white
  space. The fuel is the number of bytes still to look at.
\<close>

fun trim_left_space :: "string list \<Rightarrow> nat \<Rightarrow> string \<Rightarrow> string" where
  "trim_left_space runes 0 s = s"
| "trim_left_space runes (Suc n) s =
    (case leading_space runes s of
       None \<Rightarrow> s
     | Some r \<Rightarrow> trim_left_space runes n (drop (length r) s))"

text \<open>
  \<^verbatim>\<open>strings.TrimSpace(s)\<close>: all leading and all trailing white space removed. The
  trailing side is the leading side of the reversed string, with the runes reversed.
\<close>

definition TrimSpace :: "string \<Rightarrow> string" where
  "TrimSpace s =
    (let t = trim_left_space space_runes (length s) s
     in rev (trim_left_space (map rev space_runes) (length t) (rev t)))"

text \<open>
  What the claims call a string that is empty or consists only of white space: a
  concatenation of white space runes.
\<close>

inductive whitespace_only :: "string \<Rightarrow> bool" where
  ws_empty: "whitespace_only []"
| ws_rune: "r \<in> set space_runes \<Longrightarrow> whitespace_only s \<Longrightarrow> whitespace_only (r @ s)"

text \<open>Decimal digits of a number, as \<^verbatim>\<open>%d\<close> prints an \<^verbatim>\<open>int\<close>.\<close>

function digits :: "nat \<Rightarrow> string" where
  "digits n =
    (if n < 10 then [char_of (48 + n)]
     else digits (n div 10) @ [char_of (48 + n mod 10)])"
  by pat_completeness auto
termination
  by (relation "measure id") auto

definition itoa :: "int \<Rightarrow> string" where
  "itoa i = (if i < 0 then CHR ''-'' # digits (nat (- i)) else digits (nat i))"

subsection \<open>Package net/url: query values\<close>

text \<open>
  \<^verbatim>\<open>shouldEscape(c, encodeQueryComponent)\<close>: everything but letters, digits and
  \<^verbatim>\<open>- _ . ~\<close> is escaped in a query component.
\<close>

definition in_range :: "char \<Rightarrow> char \<Rightarrow> char \<Rightarrow> bool" where
  "in_range lo hi c \<longleftrightarrow> lo \<le> c \<and> c \<le> hi"

definition shouldEscape :: "char \<Rightarrow> bool" where
  "shouldEscape c \<longleftrightarrow>
    \<not> (in_range CHR ''a'' CHR ''z'' c \<or> in_range CHR ''A'' CHR ''Z'' c
       \<or> in_range CHR ''0'' CHR ''9'' c
       \<or> c = CHR ''-'' \<or> c = CHR ''_'' \<or> c = CHR ''.'' \<or> c = CHR ''~'')"

definition upperhex :: "nat \<Rightarrow> char" where
  "upperhex n = ''0123456789ABCDEF'' ! (n mod 16)"

text \<open>
  \<^verbatim>\<open>url.QueryEscape\<close>: a space becomes \<^verbatim>\<open>+\<close>, a byte to escape becomes \<^verbatim>\<open>%XX\<close>.
\<close>

definition escape_byte :: "char \<Rightarrow> string" where
  "escape_byte c =
    (if c = CHR '' '' then ''+''
     else if shouldEscape c
       then [CHR ''%'', upperhex (of_char c div 16), upperhex (of_char c mod 16)]
     else [c])"

definition QueryEscape :: "string \<Rightarrow> string" where
  "QueryEscape s = concat (map escape_byte s)"

definition ishex :: "char \<Rightarrow> bool" where
  "ishex c \<longleftrightarrow>
    in_range CHR ''0'' CHR ''9'' c \<or> in_range CHR ''a'' CHR ''f'' c
    \<or> in_range CHR ''A'' CHR ''F'' c"

definition unhex :: "char \<Rightarrow> nat" where
  "unhex c =
    (if in_range CHR ''0'' CHR ''9'' c then of_char c - 48
     else if in_range CHR ''a'' CHR ''f'' c then of_char c - 97 + 10
     else if in_range CHR ''A'' CHR ''F'' c then of_char c - 65 + 10
     else 0)"

text \<open>
  \<^verbatim>\<open>url.QueryUnescape\<close>: \<^verbatim>\<open>%XX\<close> becomes the byte, \<^verbatim>\<open>+\<close> a space; a \<^verbatim>\<open>%\<close> that
  is not followed by two hexadecimal digits is an error (\<open>None\<close>).
\<close>

fun QueryUnescape :: "string \<Rightarrow> string option" where
  "QueryUnescape [] = Some []"
| "QueryUnescape (c # s) =
    (if c = CHR ''%'' then
       (case s of
          a # b # r \<Rightarrow>
            if ishex a \<and> ishex b
            then map_option ((#) (char_of (unhex a * 16 + unhex b))) (QueryUnescape r)
            else None
        | _ \<Rightarrow> None)
     else map_option ((#) (if c = CHR ''+'' then CHR '' '' else c)) (QueryUnescape s))"

text \<open>
  \<^verbatim>\<open>url.Values\<close> is \<^verbatim>\<open>map[string][]string\<close>: an association list from a key to
  the list of its values, with distinct keys. \<^verbatim>\<open>v[k]\<close> of an absent key is the empty
  slice.
\<close>

type_synonym Values = "(string \<times> string list) list"

definition Values_get :: "Values \<Rightarrow> string \<Rightarrow> string list" where
  "Values_get v k = (case map_of v k of None \<Rightarrow> [] | Some vs \<Rightarrow> vs)"

text \<open>\<^verbatim>\<open>v.Set(key, value)\<close>: \<^verbatim>\<open>v[key] = []string{value}\<close>.\<close>

definition Values_Set :: "Values \<Rightarrow> string \<Rightarrow> string \<Rightarrow> Values" where
  "Values_Set v k val = AList.update k [val] v"

text \<open>\<^verbatim>\<open>v.Add(key, value)\<close>: \<^verbatim>\<open>v[key] = append(v[key], value)\<close>.\<close>

definition Values_Add :: "Values \<Rightarrow> string \<Rightarrow> string \<Rightarrow> Values" where
  "Values_Add v k val = AList.update k (Values_get v k @ [val]) v"

text \<open>
  \<^verbatim>\<open>url.ParseQuery\<close>, as \<^verbatim>\<open>URL.Query\<close> uses it: the error is dropped and the values
  parsed are kept. A pair with a semicolon, an empty pair and a pair whose key or value
  does not unescape are skipped.
\<close>

function parseQuery :: "Values \<Rightarrow> string \<Rightarrow> Values" where
  "parseQuery m query =
    (if query = [] then m
     else
       let key = fst (Cut query CHR ''&''); rest = snd (Cut query CHR ''&'')
       in if CHR '';'' \<in> set key then parseQuery m rest
          else if key = [] then parseQuery m rest
          else
            (case QueryUnescape (fst (Cut key CHR ''='')) of
               None \<Rightarrow> parseQuery m rest
             | Some k \<Rightarrow>
                 (case QueryUnescape (snd (Cut key CHR ''='')) of
                    None \<Rightarrow> parseQuery m rest
                  | Some val \<Rightarrow> parseQuery (Values_Add m k val) rest)))"
  by pat_completeness auto
termination
proof -
  have "length (snd (Cut query sep)) < length query" if "query \<noteq> []"
    for query :: string and sep
  proof -
    have "length (dropWhile (\<lambda>c. c \<noteq> sep) query) \<le> length query"
      by (rule length_dropWhile_le)
    with that show ?thesis
      by (cases query) (auto simp: Cut_def)
  qed
  then show ?thesis
    by (relation "measure (\<lambda>(m, query). length query)") auto
qed

definition ParseQuery :: "string \<Rightarrow> Values" where
  "ParseQuery query = parseQuery [] query"

text \<open>
  \<^verbatim>\<open>v.Encode()\<close>: the keys sorted, and for each key its values in their order, as
  \<^verbatim>\<open>key=value\<close> with both sides escaped; \<^verbatim>\<open>&\<close> goes before every pair but the one
  that finds the buffer empty.
\<close>

definition write_pair :: "string \<Rightarrow> string \<Rightarrow> string \<Rightarrow> string" where
  "write_pair keyEscaped val buf =
    (if length buf > 0 then buf @ ''&'' else buf) @ keyEscaped @ ''='' @ QueryEscape val"

definition Encode :: "Values \<Rightarrow> string" where
  "Encode v =
    (if length v = 0 then []
     else fold (\<lambda>k buf. fold (write_pair (QueryEscape k)) (Values_get v k) buf)
            (sort (map fst v)) [])"

text \<open>The pairs of a query, in the order \<open>Encode\<close> writes them.\<close>

definition entries :: "Values \<Rightarrow> (string \<times> string) list" where
  "entries v = concat (map (\<lambda>k. map (Pair k) (Values_get v k)) (sort (map fst v)))"

text \<open>A pair as it is written, and pairs joined by \<^verbatim>\<open>&\<close>.\<close>

definition encode_pair :: "string \<times> string \<Rightarrow> string" where
  "encode_pair p = QueryEscape (fst p) @ ''='' @ QueryEscape (snd p)"

fun join_amp :: "string list \<Rightarrow> string" where
  "join_amp [] = []"
| "join_amp [x] = x"
| "join_amp (x # y # ys) = x @ ''&'' @ join_amp (y # ys)"

subsection \<open>Package net/url: URLs\<close>

text \<open>
  Of a parsed \<^verbatim>\<open>url.URL\<close> the client reads the query and replaces it; the other
  fields it only prints back. \<open>Head\<close> is what \<^verbatim>\<open>URL.String\<close> writes for \<^verbatim>\<open>Scheme\<close>,
  \<^verbatim>\<open>Opaque\<close>, \<^verbatim>\<open>User\<close>, \<^verbatim>\<open>Host\<close> and \<^verbatim>\<open>Path\<close>, and \<open>Tail\<close> what it writes for
  \<^verbatim>\<open>Fragment\<close> (\<^verbatim>\<open>#\<close> and the escaped fragment, or nothing).
\<close>

record URL =
  Head :: string
  ForceQuery :: bool
  RawQuery :: string
  Tail :: string

text \<open>\<^verbatim>\<open>u.String()\<close>.\<close>

definition URL_String :: "URL \<Rightarrow> string" where
  "URL_String u =
    Head u @ (if ForceQuery u \<or> RawQuery u \<noteq> [] then ''?'' @ RawQuery u else []) @ Tail u"

text \<open>\<^verbatim>\<open>u.Query()\<close>.\<close>

definition Query :: "URL \<Rightarrow> Values" where
  "Query u = ParseQuery (RawQuery u)"

subsection \<open>What the client takes from its environment\<close>

text \<open>
  The parser of package net/url, the JSON decoder and encoder of package encoding/json
  are parameters of the model: a library call returns its result or the message of its
  error. Every theorem below holds for all of them.
  \<^item> \<open>url_Parse\<close> is \<^verbatim>\<open>url.Parse\<close>;
  \<^item> \<open>json_Unmarshal\<close> is \<^verbatim>\<open>json.Unmarshal(bodyBytes, &out)\<close> for \<^verbatim>\<open>out\<close> of type
    \<^verbatim>\<open>map[string]any\<close>, the decoded values being of type \<open>'v\<close>;
  \<^item> \<open>json_Encode\<close> is \<^verbatim>\<open>json.NewEncoder(&buf).Encode(body)\<close> for \<^verbatim>\<open>body\<close> of type
    \<^verbatim>\<open>map[string]string\<close>: the bytes written to the buffer.
\<close>

record 'v Lib =
  url_Parse :: "string \<Rightarrow> string + URL"
  json_Unmarshal :: "string \<Rightarrow> string + (string \<rightharpoonup> 'v)"
  json_Encode :: "(string \<times> string) list \<Rightarrow> string + string"

text \<open>
  An \<^verbatim>\<open>http.Request\<close> as the client makes it, and the \<^verbatim>\<open>http.Response\<close> it reads:
  \<open>Body\<close> is what \<^verbatim>\<open>io.ReadAll(resp.Body)\<close> returns, the bytes or an error.
\<close>

record request =
  Method :: string
  URL :: string
  Header :: "(string \<times> string) list"
  ReqBody :: "string option"

record response =
  StatusCode :: int
  Body :: "string + string"

text \<open>
  The client. \<open>httpClient\<close> is \<^verbatim>\<open>c.httpClient.Do\<close>: the response to a request, or the
  error of the transport (a time-out or a cancelled context among them).
\<close>

record Client =
  apiKey :: string
  baseURL :: string
  source :: string
  httpClient :: "request \<Rightarrow> string + response"

definition WithBaseURL :: "string \<Rightarrow> Client \<Rightarrow> Client" where
  "WithBaseURL u c = c\<lparr>baseURL := TrimRight u ''/''\<rparr>"

definition WithHTTPClient :: "(request \<Rightarrow> string + response) \<Rightarrow> Client \<Rightarrow> Client" where
  "WithHTTPClient h c = c\<lparr>httpClient := h\<rparr>"

definition WithSource :: "string \<Rightarrow> Client \<Rightarrow> Client" where
  "WithSource src c = c\<lparr>source := src\<rparr>"

text \<open>\<open>New\<close>; \<open>net\<close> is the default \<^verbatim>\<open>http.Client\<close> with its time-out of 15 seconds.\<close>

definition New :: "(request \<Rightarrow> string + response) \<Rightarrow> string \<Rightarrow> (Client \<Rightarrow> Client) list \<Rightarrow> Client" where
  "New net key opts =
    fold (\<lambda>opt c. opt c) opts
      \<lparr>apiKey = key, baseURL = ''https://api.carsxe.com'', source = ''go'', httpClient = net\<rparr>"

subsection \<open>The error-returning client (main.go)\<close>

text \<open>
  The errors a call returns. An error of a library call is returned as it is; the
  constructor tells which call it came from.
\<close>

datatype error =
    ParseError string
  | RequestError string
  | TransportError string
  | ReadError string
  | EncodeError string
  | Non2xx int string
  | DecodeError string string
  | ImageURLRequired

text \<open>\<^verbatim>\<open>err.Error()\<close>, with the format strings of the source.\<close>

fun Error :: "error \<Rightarrow> string" where
  "Error (ParseError err) = err"
| "Error (RequestError err) = err"
| "Error (TransportError err) = err"
| "Error (ReadError err) = err"
| "Error (EncodeError err) = err"
| "Error (Non2xx status body) =
    ''carsxe: non-2xx response ('' @ itoa status @ ''): '' @ body"
| "Error (DecodeError err body) =
    ''carsxe: decode error: '' @ err @ '' (body='' @ body @ '')''"
| "Error ImageURLRequired = ''image URL required''"

text \<open>
  The loop of \<open>buildURL\<close> over the parameters, in the order the map yields them: a
  parameter with an empty value is skipped.
\<close>

definition add_params :: "(string \<times> string) list \<Rightarrow> Values \<Rightarrow> Values" where
  "add_params params q = fold (\<lambda>(k, v) q. if v \<noteq> [] then Values_Add q k v else q) params q"

text \<open>The query \<open>buildURL\<close> encodes: lines 64 to 71 of main.go.\<close>

definition build_query :: "Client \<Rightarrow> URL \<Rightarrow> (string \<times> string) list \<Rightarrow> Values" where
  "build_query c u params =
    add_params params
      (Values_Set (Values_Set (Query u) ''key'' (apiKey c)) ''source'' (source c))"

definition buildURL :: "'v Lib \<Rightarrow> Client \<Rightarrow> string \<Rightarrow> (string \<times> string) list \<Rightarrow> error + string" where
  "buildURL L c endpoint params =
    (case url_Parse L (baseURL c @ ''/'' @ TrimLeft endpoint ''/'') of
       Inl err \<Rightarrow> Inl (ParseError err)
     | Inr u \<Rightarrow> Inr (URL_String (u\<lparr>RawQuery := Encode (build_query c u params)\<rparr>)))"

text \<open>
  An operation that may use the network returns the requests it handed to the
  transport, in order, and its result.
\<close>

definition doRequest ::
  "'v Lib \<Rightarrow> Client \<Rightarrow> request \<Rightarrow> request list \<times> (error + (string \<rightharpoonup> 'v))" where
  "doRequest L c req =
    ([req],
     case httpClient c req of
       Inl err \<Rightarrow> Inl (TransportError err)
     | Inr resp \<Rightarrow>
         (case Body resp of
            Inl err \<Rightarrow> Inl (ReadError err)
          | Inr bodyBytes \<Rightarrow>
              if StatusCode resp < 200 \<or> StatusCode resp \<ge> 300
              then Inl (Non2xx (StatusCode resp) bodyBytes)
              else if length bodyBytes = 0 then Inr Map.empty
              else
                (case json_Unmarshal L bodyBytes of
                   Inl err \<Rightarrow> Inl (DecodeError err bodyBytes)
                 | Inr out \<Rightarrow> Inr out)))"

text \<open>
  \<^verbatim>\<open>http.NewRequestWithContext\<close> (and \<^verbatim>\<open>http.NewRequest\<close>) for the methods GET and POST
  and a context that is not nil: it fails when the URL does not parse.
\<close>

definition NewRequest :: "'v Lib \<Rightarrow> string \<Rightarrow> string \<Rightarrow> string option \<Rightarrow> string + request" where
  "NewRequest L method urlStr body =
    (case url_Parse L urlStr of
       Inl err \<Rightarrow> Inl err
     | Inr u \<Rightarrow> Inr \<lparr>Method = method, URL = urlStr, Header = [], ReqBody = body\<rparr>)"

text \<open>\<open>Get\<close>; a nil map of parameters and an empty one are both the empty list.\<close>

definition Get ::
  "'v Lib \<Rightarrow> Client \<Rightarrow> string \<Rightarrow> (string \<times> string) list
    \<Rightarrow> request list \<times> (error + (string \<rightharpoonup> 'v))" where
  "Get L c endpoint params =
    (case buildURL L c endpoint params of
       Inl err \<Rightarrow> ([], Inl err)
     | Inr urlStr \<Rightarrow>
         (case NewRequest L ''GET'' urlStr None of
            Inl err \<Rightarrow> ([], Inl (RequestError err))
          | Inr req \<Rightarrow> doRequest L c req))"

text \<open>\<open>postJSON\<close>; \<open>body\<close> is \<open>None\<close> for nil.\<close>

definition postJSON ::
  "'v Lib \<Rightarrow> Client \<Rightarrow> string \<Rightarrow> (string \<times> string) list option
    \<Rightarrow> request list \<times> (error + (string \<rightharpoonup> 'v))" where
  "postJSON L c endpoint body =
    (case buildURL L c endpoint [] of
       Inl err \<Rightarrow> ([], Inl err)
     | Inr urlStr \<Rightarrow>
         (case (case body of None \<Rightarrow> Inr [] | Some b \<Rightarrow> json_Encode L b) of
            Inl err \<Rightarrow> ([], Inl (EncodeError err))
          | Inr buf \<Rightarrow>
              (case NewRequest L ''POST'' urlStr (Some buf) of
                 Inl err \<Rightarrow> ([], Inl (RequestError err))
               | Inr req \<Rightarrow>
                   doRequest L c
                     (req\<lparr>Header :=
                        AList.update ''Content-Type'' ''application/json'' (Header req)\<rparr>))))"

definition PlateDecoder ::
  "'v Lib \<Rightarrow> Client \<Rightarrow> (string \<times> string) list \<Rightarrow> request list \<times> (error + (string \<rightharpoonup> 'v))" where
  "PlateDecoder L c params = Get L c ''v2/platedecoder'' params"

definition PlateImageRecognition ::
  "'v Lib \<Rightarrow> Client \<Rightarrow> string \<Rightarrow> request list \<times> (error + (string \<rightharpoonup> 'v))" where
  "PlateImageRecognition L c imageURL =
    (if TrimSpace imageURL = [] then ([], Inl ImageURLRequired)
     else postJSON L c ''platerecognition'' (Some [(''image'', imageURL)]))"

definition VinOCR ::
  "'v Lib \<Rightarrow> Client \<Rightarrow> string \<Rightarrow> request list \<times> (error + (string \<rightharpoonup> 'v))" where
  "VinOCR L c imageURL =
    (if TrimSpace imageURL = [] then ([], Inl ImageURLRequired)
     else postJSON L c ''v1/vinocr'' (Some [(''image'', imageURL)]))"

subsection \<open>The panic-style client\<close>

text \<open>
  The older variant of the file panics where the other returns an error. A panic is a
  result too: \<open>Panic\<close> with the value the source panics with, a string.
\<close>

datatype fault = Panic string

definition buildURL_panic :: "'v Lib \<Rightarrow> Client \<Rightarrow> string \<Rightarrow> (string \<times> string) list \<Rightarrow> fault + string" where
  "buildURL_panic L c endpoint params =
    (case url_Parse L (baseURL c @ ''/'' @ TrimLeft endpoint ''/'') of
       Inl err \<Rightarrow> Inl (Panic (''Failed to parse URL: '' @ err))
     | Inr u \<Rightarrow> Inr (URL_String (u\<lparr>RawQuery := Encode (build_query c u params)\<rparr>)))"

definition doRequest_panic ::
  "'v Lib \<Rightarrow> Client \<Rightarrow> request \<Rightarrow> request list \<times> (fault + (string \<rightharpoonup> 'v))" where
  "doRequest_panic L c req =
    ([req],
     case httpClient c req of
       Inl err \<Rightarrow> Inl (Panic (''HTTP request failed: '' @ err))
     | Inr resp \<Rightarrow>
         (case Body resp of
            Inl err \<Rightarrow> Inl (Panic (''Failed to read response body: '' @ err))
          | Inr bodyBytes \<Rightarrow>
              if length bodyBytes = 0 then Inr Map.empty
              else
                (case json_Unmarshal L bodyBytes of
                   Inl err \<Rightarrow>
                     Inl (Panic (''Failed to decode JSON: '' @ err @ '' (body='' @ bodyBytes @ '')''))
                 | Inr out \<Rightarrow> Inr out)))"

definition Get_panic ::
  "'v Lib \<Rightarrow> Client \<Rightarrow> string \<Rightarrow> (string \<times> string) list
    \<Rightarrow> request list \<times> (fault + (string \<rightharpoonup> 'v))" where
  "Get_panic L c endpoint params =
    (case buildURL_panic L c endpoint params of
       Inl f \<Rightarrow> ([], Inl f)
     | Inr urlStr \<Rightarrow>
         (case NewRequest L ''GET'' urlStr None of
            Inl err \<Rightarrow> ([], Inl (Panic (''Failed to create request: '' @ err)))
          | Inr req \<Rightarrow> doRequest_panic L c req))"

definition postJSON_panic ::
  "'v Lib \<Rightarrow> Client \<Rightarrow> string \<Rightarrow> (string \<times> string) list option
    \<Rightarrow> request list \<times> (fault + (string \<rightharpoonup> 'v))" where
  "postJSON_panic L c endpoint body =
    (case buildURL_panic L c endpoint [] of
       Inl f \<Rightarrow> ([], Inl f)
     | Inr urlStr \<Rightarrow>
         (case (case body of None \<Rightarrow> Inr [] | Some b \<Rightarrow> json_Encode L b) of
            Inl err \<Rightarrow> ([], Inl (Panic (''Failed to encode JSON body: '' @ err)))
          | Inr buf \<Rightarrow>
              (case NewRequest L ''POST'' urlStr (Some buf) of
                 Inl err \<Rightarrow> ([], Inl (Panic (''Failed to create request: '' @ err)))
               | Inr req \<Rightarrow>
                   doRequest_panic L c
                     (req\<lparr>Header :=
                        AList.update ''Content-Type'' ''application/json'' (Header req)\<rparr>))))"

definition PlateDecoder_panic ::
  "'v Lib \<Rightarrow> Client \<Rightarrow> (string \<times> string) list \<Rightarrow> request list \<times> (fault + (string \<rightharpoonup> 'v))" where
  "PlateDecoder_panic L c params = Get_panic L c ''v2/platedecoder'' params"

definition PlateImageRecognition_panic ::
  "'v Lib \<Rightarrow> Client \<Rightarrow> string \<Rightarrow> request list \<times> (fault + (string \<rightharpoonup> 'v))" where
  "PlateImageRecognition_panic L c imageURL =
    (if TrimSpace imageURL = [] then ([], Inl (Panic ''image URL required''))
     else postJSON_panic L c ''platerecognition'' (Some [(''image'', imageURL)]))"

definition VinOCR_panic ::
  "'v Lib \<Rightarrow> Client \<Rightarrow> string \<Rightarrow> request list \<times> (fault + (string \<rightharpoonup> 'v))" where
  "VinOCR_panic L c imageURL =
    (if TrimSpace imageURL = [] then ([], Inl (Panic ''image URL required''))
     else postJSON_panic L c ''v1/vinocr'' (Some [(''image'', imageURL)]))"

subsection \<open>An environment to evaluate in\<close>

text \<open>
  A library for the evaluations below. \<open>plain_Parse\<close> does what \<^verbatim>\<open>url.Parse\<close> does to a
  URL whose scheme, authority and path it accepts and prints back as they are written
  (such as \<^verbatim>\<open>https://api.carsxe.com/specs\<close>): a control byte is an error, the fragment
  is what follows the first \<^verbatim>\<open>#\<close>, the query what follows the first \<^verbatim>\<open>?\<close> before it, and
  \<^verbatim>\<open>ForceQuery\<close> is set for a lone \<^verbatim>\<open>?\<close> at the end.
\<close>

definition plain_Parse :: "string \<Rightarrow> string + URL" where
  "plain_Parse rawURL =
    (let u = fst (Cut rawURL CHR ''#''); frag = snd (Cut rawURL CHR ''#'')
     in if list_ex (\<lambda>c. c < CHR 0x20 \<or> c = CHR 0x7F) u
        then Inl ''net/url: invalid control character in URL''
        else
          Inr \<lparr>Head = fst (Cut u CHR ''?''),
               ForceQuery = (CHR ''?'' \<in> set u \<and> snd (Cut u CHR ''?'') = []),
               RawQuery = snd (Cut u CHR ''?''),
               Tail = (if frag = [] then [] else CHR ''#'' # frag)\<rparr>)"

text \<open>
  \<open>plain_Unmarshal\<close> decodes the empty object and nothing else; \<open>plain_Encode\<close> writes an
  object of strings that need no escape, and the new line the encoder ends with.
\<close>

definition plain_Unmarshal :: "string \<Rightarrow> string + (string \<rightharpoonup> string)" where
  "plain_Unmarshal bodyBytes =
    (if bodyBytes = ''{}'' then Inr Map.empty
     else Inl ''invalid character looking for beginning of value'')"

definition json_quote :: "string \<Rightarrow> string" where
  "json_quote s = [CHR 0x22] @ s @ [CHR 0x22]"

fun json_fields :: "(string \<times> string) list \<Rightarrow> string" where
  "json_fields [] = []"
| "json_fields [(k, v)] = json_quote k @ '':'' @ json_quote v"
| "json_fields ((k, v) # kvs) = json_quote k @ '':'' @ json_quote v @ '','' @ json_fields kvs"

definition plain_Encode :: "(string \<times> string) list \<Rightarrow> string + string" where
  "plain_Encode body = Inr (''{'' @ json_fields body @ ''}'' @ [CHR 0x0A])"

definition golib :: "string Lib" where
  "golib =
    \<lparr>url_Parse = plain_Parse, json_Unmarshal = plain_Unmarshal, json_Encode = plain_Encode\<rparr>"

text \<open>
  A transport that answers every request with the given status and body, and the
  client of the README: \<^verbatim>\<open>carsxe.New("YOUR_API_KEY")\<close>.
\<close>

definition answer :: "int \<Rightarrow> string \<Rightarrow> request \<Rightarrow> string + response" where
  "answer status bodyBytes req = Inr \<lparr>StatusCode = status, Body = Inr bodyBytes\<rparr>"

definition demo :: "int \<Rightarrow> string \<Rightarrow> Client" where
  "demo status bodyBytes = New (answer status bodyBytes) ''YOUR_API_KEY'' []"

section \<open>Properties\<close>

declare digits.simps [simp del]

declare parseQuery.simps [simp del]

subsection \<open>White space\<close>

text \<open>
  \<open>TrimSpace\<close> leaves nothing exactly of the strings that are concatenations of white
  space runes.
\<close>

lemma find_SomeD': "find P xs = Some x \<Longrightarrow> P x \<and> x \<in> set xs"
  by (induction xs) (auto split: if_splits)

lemma space_runes_nonempty: "r \<in> set space_runes \<Longrightarrow> r \<noteq> []"
  by (auto simp: space_runes_def)

lemma space_runes_length:
  "r \<in> set space_runes \<Longrightarrow>
    length r = (if hd r = CHR 0xC2 then 2
                else if hd r = CHR 0xE1 \<or> hd r = CHR 0xE2 \<or> hd r = CHR 0xE3 then 3 else 1)"
  unfolding space_runes_def by (elim disjE | simp)+

lemma space_runes_prefix_free:
  assumes "r \<in> set space_runes" "r' \<in> set space_runes" "take (length r') (r @ s) = r'"
  shows "r' = r"
proof -
  have "r \<noteq> []" and "r' \<noteq> []"
    using assms(1,2) by (simp_all add: space_runes_nonempty)
  then obtain a as b bs where r: "r = a # as" and r': "r' = b # bs"
    by (auto simp: neq_Nil_conv)
  with assms(3) have "hd r' = hd r" by simp
  with assms(1,2) have "length r' = length r"
    by (simp only: space_runes_length)
  with assms(3) show ?thesis by simp
qed

lemma leading_space_rune:
  assumes "r \<in> set space_runes"
  shows "leading_space space_runes (r @ s) = Some r"
proof (cases "leading_space space_runes (r @ s)")
  case None
  with assms show ?thesis
    by (auto simp: leading_space_def find_None_iff)
next
  case (Some r')
  then have "take (length r') (r @ s) = r'" and "r' \<in> set space_runes"
    by (auto simp: leading_space_def dest: find_SomeD')
  with assms have "r' = r"
    by (auto dest: space_runes_prefix_free)
  with Some show ?thesis by simp
qed

lemma trim_left_space_whitespace:
  "whitespace_only s \<Longrightarrow> length s \<le> n \<Longrightarrow> trim_left_space space_runes n s = []"
proof (induction arbitrary: n rule: whitespace_only.induct)
  case ws_empty
  show ?case by (cases n) (simp_all add: leading_space_def find_None_iff space_runes_def)
next
  case (ws_rune r s)
  then have "r \<noteq> []" by (simp add: space_runes_nonempty)
  with ws_rune.prems obtain m where n: "n = Suc m" and "length s \<le> m"
    by (cases n; cases r) auto
  with ws_rune show ?case
    by (simp add: leading_space_rune)
qed

lemma trim_left_space_concat:
  "trim_left_space runes n s = [] \<Longrightarrow> \<exists>ws. set ws \<subseteq> set runes \<and> s = concat ws"
proof (induction n arbitrary: s)
  case 0
  then show ?case by (auto intro: exI [of _ "[]"])
next
  case (Suc n)
  show ?case
  proof (cases "leading_space runes s")
    case None
    with Suc.prems show ?thesis by (auto intro: exI [of _ "[]"])
  next
    case (Some r)
    then have r: "r \<in> set runes" "take (length r) s = r"
      by (auto simp: leading_space_def dest: find_SomeD')
    from Some Suc.prems have "trim_left_space runes n (drop (length r) s) = []"
      by simp
    then obtain ws where ws: "set ws \<subseteq> set runes" "drop (length r) s = concat ws"
      using Suc.IH by blast
    have "s = concat (r # ws)"
      using r(2) ws(2) append_take_drop_id [of "length r" s] by simp
    with r(1) ws(1) show ?thesis
      by (intro exI [of _ "r # ws"]) simp
  qed
qed

lemma whitespace_only_concat:
  "set ws \<subseteq> set space_runes \<Longrightarrow> whitespace_only (concat ws)"
  by (induction ws) (auto intro: whitespace_only.intros)

lemma trim_left_space_fixed:
  "\<forall>r\<in>set runes. r \<noteq> [] \<Longrightarrow> length s \<le> n \<Longrightarrow>
    leading_space runes (trim_left_space runes n s) = None"
proof (induction n arbitrary: s)
  case 0
  then show ?case by (auto simp: leading_space_def find_None_iff)
next
  case (Suc n)
  show ?case
  proof (cases "leading_space runes s")
    case None
    then show ?thesis by simp
  next
    case (Some r)
    then have "r \<in> set runes" "take (length r) s = r"
      by (auto simp: leading_space_def dest: find_SomeD')
    with Suc.prems have "length (drop (length r) s) \<le> n"
      by (cases r) auto
    with Some Suc show ?thesis by simp
  qed
qed

lemma TrimSpace_empty_iff: "TrimSpace s = [] \<longleftrightarrow> whitespace_only s"
proof
  assume "whitespace_only s"
  then have "trim_left_space space_runes (length s) s = []"
    by (rule trim_left_space_whitespace) simp
  then show "TrimSpace s = []"
    by (simp add: TrimSpace_def)
next
  assume empty: "TrimSpace s = []"
  define t where "t = trim_left_space space_runes (length s) s"
  from empty have "trim_left_space (map rev space_runes) (length t) (rev t) = []"
    by (simp add: TrimSpace_def t_def Let_def)
  then obtain ws where ws: "set ws \<subseteq> set (map rev space_runes)" "rev t = concat ws"
    using trim_left_space_concat by blast
  have "t = concat (map rev (rev ws))"
    using ws(2) by (metis rev_concat rev_rev_ident)
  moreover have "set (map rev (rev ws)) \<subseteq> set space_runes"
    using ws(1) by auto
  ultimately have wt: "whitespace_only t"
    using whitespace_only_concat by metis
  have fixed: "leading_space space_runes t = None"
    unfolding t_def by (rule trim_left_space_fixed) (auto simp: space_runes_nonempty)
  have "t = []"
    using wt
  proof cases
    case ws_empty
    then show ?thesis .
  next
    case (ws_rune r s')
    with fixed show ?thesis
      by (simp add: leading_space_rune)
  qed
  then have "trim_left_space space_runes (length s) s = []"
    by (simp add: t_def)
  then obtain ws' where "set ws' \<subseteq> set space_runes" "s = concat ws'"
    using trim_left_space_concat by blast
  then show "whitespace_only s"
    using whitespace_only_concat by blast
qed

subsection \<open>Query values\<close>

lemma Values_get_Set:
  "Values_get (Values_Set q k v) k' = (if k' = k then [v] else Values_get q k')"
  by (simp add: Values_get_def Values_Set_def update_conv')

lemma Values_get_Add:
  "Values_get (Values_Add q k v) k' = (if k' = k then Values_get q k @ [v] else Values_get q k')"
  by (simp add: Values_get_def Values_Add_def update_conv')

lemma keys_Set: "fst ` set (Values_Set q k v) = insert k (fst ` set q)"
  by (simp add: Values_Set_def dom_update)

lemma keys_Add: "fst ` set (Values_Add q k v) = insert k (fst ` set q)"
  by (simp add: Values_Add_def dom_update)

lemma distinct_Set: "distinct (map fst q) \<Longrightarrow> distinct (map fst (Values_Set q k v))"
  by (simp add: Values_Set_def distinct_update)

lemma distinct_Add: "distinct (map fst q) \<Longrightarrow> distinct (map fst (Values_Add q k v))"
  by (simp add: Values_Add_def distinct_update)

text \<open>The non-empty values that a parameter list gives to a key, in its order.\<close>

lemma Values_get_add_params:
  "Values_get (add_params params q) k
    = Values_get q k @ filter (\<lambda>v. v \<noteq> []) (map snd (filter (\<lambda>p. fst p = k) params))"
proof (induction params arbitrary: q)
  case Nil
  show ?case by (simp add: add_params_def)
next
  case (Cons p params)
  have step: "add_params (p # params) q
      = add_params params (if snd p \<noteq> [] then Values_Add q (fst p) (snd p) else q)"
    by (cases p) (simp add: add_params_def)
  show ?case
    unfolding step by (simp add: Cons.IH Values_get_Add)
qed

lemma keys_add_params:
  "fst ` set (add_params params q)
    = fst ` set q \<union> {k. \<exists>v. (k, v) \<in> set params \<and> v \<noteq> []}"
proof (induction params arbitrary: q)
  case Nil
  show ?case by (simp add: add_params_def)
next
  case (Cons p params)
  have step: "add_params (p # params) q
      = add_params params (if snd p \<noteq> [] then Values_Add q (fst p) (snd p) else q)"
    by (cases p) (simp add: add_params_def)
  show ?case
    unfolding step Cons.IH by (cases p) (auto simp: keys_Add)
qed

lemma distinct_add_params:
  "distinct (map fst q) \<Longrightarrow> distinct (map fst (add_params params q))"
proof (induction params arbitrary: q)
  case Nil
  then show ?case by (simp add: add_params_def)
next
  case (Cons p params)
  have step: "add_params (p # params) q
      = add_params params (if snd p \<noteq> [] then Values_Add q (fst p) (snd p) else q)"
    by (cases p) (simp add: add_params_def)
  show ?case
    unfolding step using Cons.prems by (intro Cons.IH) (simp add: distinct_Add)
qed

lemma distinct_parseQuery:
  "distinct (map fst m) \<Longrightarrow> distinct (map fst (parseQuery m query))"
proof (induction m query rule: parseQuery.induct)
  case (1 m query)
  show ?case
  proof (cases "query = []")
    case True
    with "1.prems" show ?thesis by (simp add: parseQuery.simps)
  next
    case False
    with "1.IH" "1.prems" show ?thesis
      by (subst parseQuery.simps) (auto simp: Let_def distinct_Add split: option.splits)
  qed
qed

lemma distinct_Query: "distinct (map fst (Query u))"
  by (simp add: Query_def ParseQuery_def distinct_parseQuery)

lemma distinct_build_query: "distinct (map fst (build_query c u params))"
  by (simp add: build_query_def distinct_add_params distinct_Set distinct_Query)

lemma set_entries: "set (entries q) = {(k, v). v \<in> set (Values_get q k)}"
proof -
  have "Values_get q k = []" if "k \<notin> set (map fst q)" for k
    using that by (simp add: Values_get_def map_of_eq_None_iff [THEN iffD2])
  then show ?thesis
    by (fastforce simp: entries_def)
qed

lemma sort_keys_eq:
  assumes "distinct (xs :: string list)" "distinct ys" "set xs = set ys"
  shows "sort xs = sort ys"
  using assms by (metis distinct_remdups_id sorted_list_of_set_sort_remdups)

lemma Encode_cong:
  assumes "distinct (map fst q)" "distinct (map fst q')"
    and "fst ` set q = fst ` set q'"
    and "\<And>k. Values_get q k = Values_get q' k"
  shows "Encode q = Encode q'" and "entries q = entries q'"
proof -
  have keys: "sort (map fst q) = sort (map fst q')"
    using assms(1-3) by (intro sort_keys_eq) simp_all
  have "q = [] \<longleftrightarrow> q' = []"
    using assms(3) by (cases q; cases q') auto
  with keys assms(4) show "Encode q = Encode q'"
    by (simp add: Encode_def)
  from keys assms(4) show "entries q = entries q'"
    by (simp add: entries_def)
qed

text \<open>Parameters in another order of iteration.\<close>

lemma filter_key_perm:
  assumes "distinct (map fst ps)" "mset ps' = mset ps"
  shows "filter (\<lambda>p. fst p = k) ps' = filter (\<lambda>p. fst p = (k::string)) (ps :: (string \<times> string) list)"
proof -
  have d': "distinct (map fst ps')"
    using assms by (metis mset_eq_imp_distinct_iff mset_map)
  have short: "length (filter (\<lambda>p. fst p = k) xs) \<le> 1" if "distinct (map fst xs)"
    for xs :: "(string \<times> string) list"
    using that by (induction xs) (auto simp: filter_empty_conv image_iff)
  have m: "mset (filter (\<lambda>p. fst p = k) ps') = mset (filter (\<lambda>p. fst p = k) ps)"
    using assms(2) by simp
  show ?thesis
  proof (cases "filter (\<lambda>p. fst p = k) ps")
    case Nil
    with m have "mset (filter (\<lambda>p. fst p = k) ps') = {#}"
      by (simp only: mset.simps)
    with Nil show ?thesis
      by (simp only: mset_zero_iff)
  next
    case (Cons a as)
    with short [OF assms(1)] have as: "as = []" by simp
    with Cons m have "mset (filter (\<lambda>p. fst p = k) ps') = {#a#}" by simp
    then have "filter (\<lambda>p. fst p = k) ps' = [a]"
      by (simp only: mset_single_iff)
    with Cons as show ?thesis by simp
  qed
qed

lemma build_query_perm:
  assumes "distinct (map fst ps)" "mset ps' = mset ps"
  shows "Encode (build_query c u ps') = Encode (build_query c u ps)"
    and "entries (build_query c u ps') = entries (build_query c u ps)"
proof -
  have set_eq: "set ps' = set ps"
    using assms(2) by (rule mset_eq_setD)
  have keys: "fst ` set (build_query c u ps') = fst ` set (build_query c u ps)"
    unfolding build_query_def keys_add_params set_eq ..
  have vals: "Values_get (build_query c u ps') k = Values_get (build_query c u ps) k" for k
    unfolding build_query_def Values_get_add_params filter_key_perm [OF assms] ..
  show "Encode (build_query c u ps') = Encode (build_query c u ps)"
    by (rule Encode_cong(1) [OF distinct_build_query distinct_build_query keys vals])
  show "entries (build_query c u ps') = entries (build_query c u ps)"
    by (rule Encode_cong(2) [OF distinct_build_query distinct_build_query keys vals])
qed

text \<open>What \<open>Encode\<close> writes: the entries, each as a pair, joined by \<^verbatim>\<open>&\<close>.\<close>

lemma encode_pair_nonempty: "encode_pair p \<noteq> []"
  by (simp add: encode_pair_def)

lemma fold_write_pairs:
  "fold (\<lambda>p buf. (if buf \<noteq> [] then buf @ ''&'' else buf) @ encode_pair p) ps buf
    = (if ps = [] then buf
       else (if buf = [] then [] else buf @ ''&'') @ join_amp (map encode_pair ps))"
  (is "fold ?W ps buf = _")
proof (induction ps arbitrary: buf)
  case Nil
  show ?case by simp
next
  case (Cons p ps)
  have "fold ?W (p # ps) buf = fold ?W ps (?W p buf)"
    by simp
  also have "\<dots> = (if ps = [] then ?W p buf else ?W p buf @ ''&'' @ join_amp (map encode_pair ps))"
    unfolding Cons.IH by (simp add: encode_pair_nonempty)
  also have "\<dots> = (if buf = [] then [] else buf @ ''&'') @ join_amp (map encode_pair (p # ps))"
    by (cases ps) simp_all
  finally show ?case by simp
qed

lemma fold_write_pairs_empty:
  "fold (\<lambda>p buf. (if buf \<noteq> [] then buf @ ''&'' else buf) @ encode_pair p) ps []
    = join_amp (map encode_pair ps)"
  by (simp add: fold_write_pairs)

lemma fold_keys_pairs:
  "fold (\<lambda>k buf. fold (write_pair (QueryEscape k)) (Values_get v k) buf) ks buf
    = fold (\<lambda>p buf. (if buf \<noteq> [] then buf @ ''&'' else buf) @ encode_pair p)
        (concat (map (\<lambda>k. map (Pair k) (Values_get v k)) ks)) buf"
proof (induction ks arbitrary: buf)
  case Nil
  show ?case by simp
next
  case (Cons k ks)
  have "fold (write_pair (QueryEscape k)) vals buf
      = fold (\<lambda>p buf. (if buf \<noteq> [] then buf @ ''&'' else buf) @ encode_pair p)
          (map (Pair k) vals) buf" for vals buf
    by (induction vals arbitrary: buf) (simp_all add: write_pair_def encode_pair_def)
  then show ?case
    by (simp add: Cons.IH)
qed

lemma Encode_entries: "Encode v = join_amp (map encode_pair (entries v))"
proof (cases "v = []")
  case True
  then show ?thesis by (simp add: Encode_def entries_def)
next
  case False
  then show ?thesis
    by (simp add: Encode_def entries_def fold_keys_pairs fold_write_pairs_empty)
qed

subsection \<open>The URL that is built\<close>

lemma entries_build_query_nonempty: "entries (build_query c u params) \<noteq> []"
proof -
  have "apiKey c \<in> set (Values_get (build_query c u params) ''key'')"
    by (simp add: build_query_def Values_get_add_params Values_get_Set)
  then have "(''key'', apiKey c) \<in> set (entries (build_query c u params))"
    by (simp add: set_entries)
  then show ?thesis by auto
qed

lemma join_amp_nonempty:
  assumes "ps \<noteq> []"
  shows "join_amp (map encode_pair ps) \<noteq> []"
proof -
  from assms obtain p ps' where "ps = p # ps'"
    by (auto simp: neq_Nil_conv)
  then show ?thesis
    by (cases ps') (simp_all add: encode_pair_nonempty)
qed

lemma URL_String_build_query:
  "URL_String (u\<lparr>RawQuery := Encode (build_query c u params)\<rparr>)
    = Head u @ ''?'' @ join_amp (map encode_pair (entries (build_query c u params))) @ Tail u"
  using join_amp_nonempty [OF entries_build_query_nonempty [of c u params]]
  by (simp add: URL_String_def Encode_entries)

lemma buildURL_Inr:
  "buildURL L c endpoint params = Inr s \<longleftrightarrow>
    (\<exists>u. url_Parse L (baseURL c @ ''/'' @ TrimLeft endpoint ''/'') = Inr u
       \<and> s = Head u @ ''?'' @ join_amp (map encode_pair (entries (build_query c u params))) @ Tail u)"
  by (auto simp: buildURL_def URL_String_build_query split: sum.splits)

lemma buildURL_panic_Inr:
  "buildURL_panic L c endpoint params = Inr s \<longleftrightarrow> buildURL L c endpoint params = Inr s"
  by (auto simp: buildURL_def buildURL_panic_def split: sum.splits)






text \<open>
  C2, as the code has it. The query of every URL built has the entry \<^verbatim>\<open>key\<close> with the
  API key of the client and the entry \<^verbatim>\<open>source\<close> with its source tag, each the first
  entry of its name. A parameter \<^verbatim>\<open>key\<close> or \<^verbatim>\<open>source\<close> of the caller with a value that
  is not empty is neither overwritten nor rejected: \<open>Add\<close> appends it, as a further entry
  of that name after the client's.
\<close>

theorem key_and_source_come_first:
  assumes "buildURL L c endpoint params = Inr s"
  shows "\<exists>u. url_Parse L (baseURL c @ ''/'' @ TrimLeft endpoint ''/'') = Inr u
     \<and> s = Head u @ ''?'' @ join_amp (map encode_pair (entries (build_query c u params))) @ Tail u
     \<and> buildURL_panic L c endpoint params = Inr s
     \<and> Values_get (build_query c u params) ''key''
         = apiKey c # filter (\<lambda>v. v \<noteq> []) (map snd (filter (\<lambda>p. fst p = ''key'') params))
     \<and> Values_get (build_query c u params) ''source''
         = source c # filter (\<lambda>v. v \<noteq> []) (map snd (filter (\<lambda>p. fst p = ''source'') params))
     \<and> (''key'', apiKey c) \<in> set (entries (build_query c u params))
     \<and> (''source'', source c) \<in> set (entries (build_query c u params))"
proof -
  from assms obtain u where u: "url_Parse L (baseURL c @ ''/'' @ TrimLeft endpoint ''/'') = Inr u"
    and s: "s = Head u @ ''?'' @ join_amp (map encode_pair (entries (build_query c u params))) @ Tail u"
    by (auto simp: buildURL_Inr)
  have key: "Values_get (build_query c u params) ''key''
      = apiKey c # filter (\<lambda>v. v \<noteq> []) (map snd (filter (\<lambda>p. fst p = ''key'') params))"
    by (simp add: build_query_def Values_get_add_params Values_get_Set)
  have src: "Values_get (build_query c u params) ''source''
      = source c # filter (\<lambda>v. v \<noteq> []) (map snd (filter (\<lambda>p. fst p = ''source'') params))"
    by (simp add: build_query_def Values_get_add_params Values_get_Set)
  from key src have "(''key'', apiKey c) \<in> set (entries (build_query c u params))"
    and "(''source'', source c) \<in> set (entries (build_query c u params))"
    by (simp_all add: set_entries)
  with u s key src assms show ?thesis
    by (auto simp: buildURL_panic_Inr)
qed

theorem key_and_source_come_first_witness:
  "buildURL golib (demo 200 []) ''specs'' [(''vin'', ''WBAFR7C57CC811956'')]
     = Inr ''https://api.carsxe.com/specs?key=YOUR_API_KEY&source=go&vin=WBAFR7C57CC811956''
   \<and> buildURL_panic golib (demo 200 []) ''specs'' [(''vin'', ''WBAFR7C57CC811956'')]
     = Inr ''https://api.carsxe.com/specs?key=YOUR_API_KEY&source=go&vin=WBAFR7C57CC811956''"
proof -
  have built: "buildURL golib (demo 200 []) ''specs'' [(''vin'', ''WBAFR7C57CC811956'')]
     = Inr ''https://api.carsxe.com/specs?key=YOUR_API_KEY&source=go&vin=WBAFR7C57CC811956''"
    by code_simp
  show ?thesis
    using built key_and_source_come_first [OF built] by auto
qed

text \<open>
  C2 as it is stated fails: the values the caller gives for \<^verbatim>\<open>key\<close> and \<^verbatim>\<open>source\<close> are
  in the URL built.
\<close>

theorem caller_key_is_sent_counterexample:
  "buildURL golib (demo 200 []) ''specs'' [(''key'', ''OTHER''), (''source'', ''web'')]
     = Inr ''https://api.carsxe.com/specs?key=YOUR_API_KEY&key=OTHER&source=go&source=web''"
  by code_simp

text \<open>The entries are written in the order of their keys.\<close>

lemma sorted_entries: "sorted (map fst (entries q))"
proof -
  have "sorted (map fst (concat (map (\<lambda>k. map (Pair k) (Values_get q k)) ks)))"
    if "sorted ks" for ks :: "string list"
    using that by (induction ks) (auto simp: sorted_append comp_def map_replicate_const)
  then show ?thesis
    by (simp add: entries_def)
qed

text \<open>
  C10. The order in which the map of parameters is ranged over has no effect on the
  result of \<open>buildURL\<close>, in both variants: a Go map has distinct keys, and for every
  other order of the same pairs the result is the same, the error or the URL. The
  entries of the query are written sorted by key.
\<close>

theorem buildURL_order_independent:
  assumes "distinct (map fst params)" and "mset params' = mset params"
  shows "buildURL L c endpoint params' = buildURL L c endpoint params
     \<and> buildURL_panic L c endpoint params' = buildURL_panic L c endpoint params
     \<and> sorted (map fst (entries (build_query c u params)))"
  using build_query_perm(1) [OF assms]
  by (simp add: buildURL_def buildURL_panic_def sorted_entries cong: sum.case_cong)

theorem buildURL_order_independent_witness:
  "distinct (map fst [(''plate'', ''7XER187''), (''state'', ''CA''), (''country'', ''US'')])
   \<and> mset [(''country'', ''US''), (''plate'', ''7XER187''), (''state'', ''CA'')]
       = mset [(''plate'', ''7XER187''), (''state'', ''CA''), (''country'', ''US'')]
   \<and> buildURL golib (demo 200 []) ''v2/platedecoder''
        [(''country'', ''US''), (''plate'', ''7XER187''), (''state'', ''CA'')]
     = buildURL golib (demo 200 []) ''v2/platedecoder''
        [(''plate'', ''7XER187''), (''state'', ''CA''), (''country'', ''US'')]"
proof -
  have d: "distinct (map fst [(''plate'', ''7XER187''), (''state'', ''CA''), (''country'', ''US'')])"
    by simp
  have m: "mset [(''country'', ''US''), (''plate'', ''7XER187''), (''state'', ''CA'')]
       = mset [(''plate'', ''7XER187''), (''state'', ''CA''), (''country'', ''US'')]"
    by simp
  show ?thesis
    using d m buildURL_order_independent [OF d m, of golib "demo 200 []" "''v2/platedecoder''"]
    by simp
qed

subsection \<open>The requests that are sent\<close>

lemma NewRequest_Inr:
  "url_Parse L urlStr = Inr u \<Longrightarrow>
    NewRequest L method urlStr body
      = Inr \<lparr>Method = method, URL = urlStr, Header = [], ReqBody = body\<rparr>"
  by (simp add: NewRequest_def)

lemma Get_sent:
  assumes "buildURL L c endpoint params = Inr urlStr" and "url_Parse L urlStr = Inr u"
  shows "fst (Get L c endpoint params)
      = [\<lparr>Method = ''GET'', URL = urlStr, Header = [], ReqBody = None\<rparr>]"
    and "fst (Get_panic L c endpoint params)
      = [\<lparr>Method = ''GET'', URL = urlStr, Header = [], ReqBody = None\<rparr>]"
  using assms buildURL_panic_Inr [of L c endpoint params urlStr]
  by (simp_all add: Get_def Get_panic_def NewRequest_Inr doRequest_def doRequest_panic_def)

lemma postJSON_sent:
  assumes "buildURL L c endpoint [] = Inr urlStr" and "url_Parse L urlStr = Inr u"
    and "json_Encode L body = Inr buf"
  shows "fst (postJSON L c endpoint (Some body))
      = [\<lparr>Method = ''POST'', URL = urlStr,
          Header = [(''Content-Type'', ''application/json'')], ReqBody = Some buf\<rparr>]"
    and "fst (postJSON_panic L c endpoint (Some body))
      = [\<lparr>Method = ''POST'', URL = urlStr,
          Header = [(''Content-Type'', ''application/json'')], ReqBody = Some buf\<rparr>]"
  using assms buildURL_panic_Inr [of L c endpoint "[]" urlStr]
  by (simp_all add: postJSON_def postJSON_panic_def NewRequest_Inr doRequest_def
      doRequest_panic_def)

lemma Query_empty: "RawQuery u = [] \<Longrightarrow> Query u = []"
  by (simp add: Query_def ParseQuery_def parseQuery.simps)

lemma plate_query:
  assumes "RawQuery u = []"
  shows "entries (build_query c u [(''plate'', ''7XER187''), (''state'', ''CA''), (''country'', ''US'')])
      = [(''country'', ''US''), (''key'', apiKey c), (''plate'', ''7XER187''),
         (''source'', source c), (''state'', ''CA'')]"
  by (simp add: entries_def build_query_def add_params_def Query_empty [OF assms]
      Values_Set_def Values_Add_def Values_get_def)

text \<open>
  C7. Let the base URL \<open>B\<close> of the client be one that \<^verbatim>\<open>url.Parse\<close> accepts with the
  path \<^verbatim>\<open>/v2/platedecoder\<close> appended and prints back as it is, with no query and no
  fragment, and let the URL built parse when the request is made. Then \<open>PlateDecoder\<close>
  with the parameters plate 7XER187, state CA and country US, in whatever order the map
  yields them, hands one request to the transport: a GET without body for \<open>B\<close>,
  \<^verbatim>\<open>/v2/platedecoder\<close> and the query whose entries are exactly country = US, key = the
  API key, plate = 7XER187, source = the source tag and state = CA (key and source
  tag escaped as query components). Both variants send the same request.
\<close>

theorem plate_decoder_example:
  assumes parse: "url_Parse L (baseURL c @ ''/v2/platedecoder'') = Inr u"
    and base: "Head u = baseURL c @ ''/v2/platedecoder''" "RawQuery u = []" "Tail u = []"
    and params: "mset params = {#(''plate'', ''7XER187''), (''state'', ''CA''), (''country'', ''US'')#}"
    and req: "url_Parse L
        (baseURL c @ ''/v2/platedecoder?country=US&key='' @ QueryEscape (apiKey c)
          @ ''&plate=7XER187&source='' @ QueryEscape (source c) @ ''&state=CA'') = Inr u'"
  shows "fst (PlateDecoder L c params)
      = [\<lparr>Method = ''GET'',
          URL = baseURL c @ ''/v2/platedecoder?country=US&key='' @ QueryEscape (apiKey c)
            @ ''&plate=7XER187&source='' @ QueryEscape (source c) @ ''&state=CA'',
          Header = [], ReqBody = None\<rparr>]
     \<and> fst (PlateDecoder_panic L c params) = fst (PlateDecoder L c params)
     \<and> entries (build_query c u params)
         = [(''country'', ''US''), (''key'', apiKey c), (''plate'', ''7XER187''),
            (''source'', source c), (''state'', ''CA'')]"
proof -
  let ?ps = "[(''plate'', ''7XER187''), (''state'', ''CA''), (''country'', ''US'')]"
  let ?url = "baseURL c @ ''/v2/platedecoder?country=US&key='' @ QueryEscape (apiKey c)
            @ ''&plate=7XER187&source='' @ QueryEscape (source c) @ ''&state=CA''"
  have d: "distinct (map fst ?ps)" by simp
  have m: "mset params = mset ?ps" using params by simp
  have entries: "entries (build_query c u params)
      = [(''country'', ''US''), (''key'', apiKey c), (''plate'', ''7XER187''),
         (''source'', source c), (''state'', ''CA'')]"
    using build_query_perm(2) [OF d m] plate_query [OF base(2)] by simp
  have "buildURL L c ''v2/platedecoder'' params = Inr ?url"
    unfolding buildURL_Inr
    using parse base entries by (simp add: TrimLeft_def encode_pair_def QueryEscape_def
        escape_byte_def shouldEscape_def in_range_def)
  from Get_sent [OF this req] entries show ?thesis
    by (simp add: PlateDecoder_def PlateDecoder_panic_def)
qed

text \<open>The theorem at the client of the README, \<^verbatim>\<open>carsxe.New("YOUR_API_KEY")\<close>.\<close>

theorem plate_decoder_example_witness:
  "url_Parse golib (baseURL (demo 200 []) @ ''/v2/platedecoder'')
     = Inr \<lparr>Head = ''https://api.carsxe.com/v2/platedecoder'', ForceQuery = False,
            RawQuery = [], Tail = []\<rparr>
   \<and> fst (PlateDecoder golib (demo 200 [])
          [(''plate'', ''7XER187''), (''state'', ''CA''), (''country'', ''US'')])
     = [\<lparr>Method = ''GET'',
         URL = ''https://api.carsxe.com/v2/platedecoder?country=US&key=YOUR_API_KEY&plate=7XER187&source=go&state=CA'',
         Header = [], ReqBody = None\<rparr>]
   \<and> fst (PlateDecoder_panic golib (demo 200 [])
          [(''plate'', ''7XER187''), (''state'', ''CA''), (''country'', ''US'')])
     = [\<lparr>Method = ''GET'',
         URL = ''https://api.carsxe.com/v2/platedecoder?country=US&key=YOUR_API_KEY&plate=7XER187&source=go&state=CA'',
         Header = [], ReqBody = None\<rparr>]"
proof -
  let ?c = "demo 200 []"
  let ?u = "\<lparr>Head = ''https://api.carsxe.com/v2/platedecoder'', ForceQuery = False,
            RawQuery = [], Tail = []\<rparr>"
  have base: "baseURL ?c = ''https://api.carsxe.com''"
    by (simp add: demo_def New_def)
  have parse: "url_Parse golib (baseURL ?c @ ''/v2/platedecoder'') = Inr ?u"
    by code_simp
  have url: "baseURL ?c @ ''/v2/platedecoder?country=US&key='' @ QueryEscape (apiKey ?c)
          @ ''&plate=7XER187&source='' @ QueryEscape (source ?c) @ ''&state=CA''
      = ''https://api.carsxe.com/v2/platedecoder?country=US&key=YOUR_API_KEY&plate=7XER187&source=go&state=CA''"
    by code_simp
  have req: "url_Parse golib
        (baseURL ?c @ ''/v2/platedecoder?country=US&key='' @ QueryEscape (apiKey ?c)
          @ ''&plate=7XER187&source='' @ QueryEscape (source ?c) @ ''&state=CA'')
      = Inr \<lparr>Head = ''https://api.carsxe.com/v2/platedecoder'', ForceQuery = False,
            RawQuery = ''country=US&key=YOUR_API_KEY&plate=7XER187&source=go&state=CA'',
            Tail = []\<rparr>"
    by code_simp
  have "Head ?u = baseURL ?c @ ''/v2/platedecoder''" "RawQuery ?u = []" "Tail ?u = []"
    by (simp_all add: base)
  from plate_decoder_example [OF parse this _ req,
      of "[(''plate'', ''7XER187''), (''state'', ''CA''), (''country'', ''US'')]",
      unfolded url]
  show ?thesis
    using parse by simp
qed

text \<open>
  C8, as the code has it. \<open>PlateDecoder\<close> hands its parameters to \<open>Get\<close> as they are and
  has no default for \<^verbatim>\<open>country\<close>. When the parameter is absent or empty, the query
  built has for \<^verbatim>\<open>country\<close> the entries that the query of the base URL had already, and
  no others; for a base URL without a query it has none, so no \<^verbatim>\<open>country=US\<close>. The
  default is left to the remote service.
\<close>

theorem plate_decoder_adds_no_country:
  assumes "distinct (map fst params)"
    and "map_of params ''country'' = None \<or> map_of params ''country'' = Some []"
  shows "PlateDecoder L c params = Get L c ''v2/platedecoder'' params
     \<and> PlateDecoder_panic L c params = Get_panic L c ''v2/platedecoder'' params
     \<and> Values_get (build_query c u params) ''country'' = Values_get (Query u) ''country''
     \<and> (RawQuery u = [] \<longrightarrow> (''country'', ''US'') \<notin> set (entries (build_query c u params)))"
proof -
  have "v = []" if "(''country'', v) \<in> set params" for v
    using that assms by (auto simp: map_of_eq_Some_iff dest: map_of_SomeD weak_map_of_SomeI)
  then have "filter (\<lambda>v. v \<noteq> []) (map snd (filter (\<lambda>p. fst p = ''country'') params)) = []"
    by (auto simp: filter_empty_conv)
  then have same: "Values_get (build_query c u params) ''country'' = Values_get (Query u) ''country''"
    by (simp add: build_query_def Values_get_add_params Values_get_Set)
  have "(''country'', ''US'') \<notin> set (entries (build_query c u params))" if "RawQuery u = []"
  proof -
    have "Values_get (Query u) ''country'' = []"
      by (simp add: Query_empty [OF that] Values_get_def)
    with same show ?thesis
      by (simp add: set_entries)
  qed
  with same show ?thesis
    by (simp add: PlateDecoder_def PlateDecoder_panic_def)
qed

theorem plate_decoder_adds_no_country_witness:
  "distinct (map fst [(''plate'', ''7XER187''), (''country'', [])])
   \<and> map_of [(''plate'', ''7XER187''), (''country'', [])] ''country'' = Some []
   \<and> PlateDecoder golib (demo 200 []) [(''plate'', ''7XER187''), (''country'', [])]
     = Get golib (demo 200 []) ''v2/platedecoder'' [(''plate'', ''7XER187''), (''country'', [])]
   \<and> Values_get (build_query (demo 200 [])
          \<lparr>Head = ''https://api.carsxe.com/v2/platedecoder'', ForceQuery = False,
            RawQuery = [], Tail = []\<rparr> [(''plate'', ''7XER187''), (''country'', [])]) ''country''
     = []
   \<and> (''country'', ''US'') \<notin> set (entries (build_query (demo 200 [])
          \<lparr>Head = ''https://api.carsxe.com/v2/platedecoder'', ForceQuery = False,
            RawQuery = [], Tail = []\<rparr> [(''plate'', ''7XER187''), (''country'', [])]))"
proof -
  have d: "distinct (map fst [(''plate'', ''7XER187''), (''country'', [])])"
    by simp
  have absent: "map_of [(''plate'', ''7XER187''), (''country'', [])] ''country'' = None
      \<or> map_of [(''plate'', ''7XER187''), (''country'', [])] ''country'' = Some []"
    by simp
  show ?thesis
    using d
      plate_decoder_adds_no_country [OF d absent, of golib "demo 200 []"
        "\<lparr>Head = ''https://api.carsxe.com/v2/platedecoder'', ForceQuery = False,
            RawQuery = [], Tail = []\<rparr>"]
    by (simp add: Query_empty Values_get_def)
qed

text \<open>
  C8 as it is stated fails: with the plate as only parameter the URL of the request has
  no \<^verbatim>\<open>country\<close>.
\<close>

theorem plate_decoder_no_default_counterexample:
  "fst (PlateDecoder golib (demo 200 []) [(''plate'', ''7XER187'')])
     = [\<lparr>Method = ''GET'',
         URL = ''https://api.carsxe.com/v2/platedecoder?key=YOUR_API_KEY&plate=7XER187&source=go'',
         Header = [], ReqBody = None\<rparr>]"
  by code_simp

subsection \<open>Image endpoints and blank image URLs\<close>

text \<open>
  C3. For an image URL that is empty or consists only of white space,
  \<open>PlateImageRecognition\<close> and \<open>VinOCR\<close> fail with the error (the panic, in the panic-style
  variant) "image URL required", and hand no request to the transport. This holds
  whatever the library and the client are: neither the URL parser nor the transport has
  a say in the result, so no URL is built and no network call is made before the
  failure.
\<close>

theorem image_endpoints_reject_blank:
  assumes "whitespace_only imageURL"
  shows
    "PlateImageRecognition L c imageURL = ([], Inl ImageURLRequired)
     \<and> VinOCR L c imageURL = ([], Inl ImageURLRequired)
     \<and> PlateImageRecognition_panic L c imageURL = ([], Inl (Panic ''image URL required''))
     \<and> VinOCR_panic L c imageURL = ([], Inl (Panic ''image URL required''))"
proof -
  from assms have "TrimSpace imageURL = []"
    by (simp add: TrimSpace_empty_iff)
  then show ?thesis
    by (simp add: PlateImageRecognition_def VinOCR_def PlateImageRecognition_panic_def
        VinOCR_panic_def)
qed

text \<open>The theorem at a blank, a tabulator and a no-break space (U+00A0).\<close>

theorem image_endpoints_reject_blank_witness:
  "whitespace_only [CHR 0x20, CHR 0x09, CHR 0xC2, CHR 0xA0]
   \<and> PlateImageRecognition golib (demo 200 ''{}'') [CHR 0x20, CHR 0x09, CHR 0xC2, CHR 0xA0]
       = ([], Inl ImageURLRequired)
   \<and> VinOCR golib (demo 200 ''{}'') [CHR 0x20, CHR 0x09, CHR 0xC2, CHR 0xA0]
       = ([], Inl ImageURLRequired)
   \<and> PlateImageRecognition_panic golib (demo 200 ''{}'') [CHR 0x20, CHR 0x09, CHR 0xC2, CHR 0xA0]
       = ([], Inl (Panic ''image URL required''))
   \<and> VinOCR_panic golib (demo 200 ''{}'') [CHR 0x20, CHR 0x09, CHR 0xC2, CHR 0xA0]
       = ([], Inl (Panic ''image URL required''))"
proof -
  have "whitespace_only ([CHR 0x20] @ [CHR 0x09] @ [CHR 0xC2, CHR 0xA0] @ [])"
    by (intro whitespace_only.intros) (simp_all add: space_runes_def)
  then have blank: "whitespace_only [CHR 0x20, CHR 0x09, CHR 0xC2, CHR 0xA0]"
    by simp
  show ?thesis
    using blank image_endpoints_reject_blank [OF blank, of golib "demo 200 ''{}''"]
    by simp
qed

text \<open>
  C9. For an image URL that is not empty and does not consist of white space only,
  \<open>PlateImageRecognition\<close> and \<open>VinOCR\<close> hand one request to the transport, once the URL
  of the endpoint is built and parses and the body is encoded: a POST to that URL whose
  body is what the JSON encoder writes for the map with the single field \<^verbatim>\<open>image\<close> set
  to the image URL, and whose only header is \<^verbatim>\<open>Content-Type: application/json\<close>. Both
  variants send the same request.
\<close>

theorem image_endpoints_post_json:
  assumes "\<not> whitespace_only imageURL"
    and "buildURL L c ''platerecognition'' [] = Inr url1"
    and "buildURL L c ''v1/vinocr'' [] = Inr url2"
    and "url_Parse L url1 = Inr u1" and "url_Parse L url2 = Inr u2"
    and "json_Encode L [(''image'', imageURL)] = Inr buf"
  shows "fst (PlateImageRecognition L c imageURL)
      = [\<lparr>Method = ''POST'', URL = url1,
          Header = [(''Content-Type'', ''application/json'')], ReqBody = Some buf\<rparr>]
     \<and> fst (VinOCR L c imageURL)
      = [\<lparr>Method = ''POST'', URL = url2,
          Header = [(''Content-Type'', ''application/json'')], ReqBody = Some buf\<rparr>]
     \<and> fst (PlateImageRecognition_panic L c imageURL) = fst (PlateImageRecognition L c imageURL)
     \<and> fst (VinOCR_panic L c imageURL) = fst (VinOCR L c imageURL)"
proof -
  from assms(1) have "TrimSpace imageURL \<noteq> []"
    by (simp add: TrimSpace_empty_iff)
  with postJSON_sent [OF assms(2,4,6)] postJSON_sent [OF assms(3,5,6)] show ?thesis
    by (simp add: PlateImageRecognition_def VinOCR_def PlateImageRecognition_panic_def
        VinOCR_panic_def)
qed

theorem image_endpoints_post_json_witness:
  "\<not> whitespace_only ''https://api.carsxe.com/img/apis/plate_recognition.JPG''
   \<and> fst (PlateImageRecognition golib (demo 200 [])
          ''https://api.carsxe.com/img/apis/plate_recognition.JPG'')
     = [\<lparr>Method = ''POST'',
         URL = ''https://api.carsxe.com/platerecognition?key=YOUR_API_KEY&source=go'',
         Header = [(''Content-Type'', ''application/json'')],
         ReqBody = Some (''{'' @ json_quote ''image'' @ '':''
           @ json_quote ''https://api.carsxe.com/img/apis/plate_recognition.JPG'' @ ''}'' @ [CHR 0x0A])\<rparr>]
   \<and> fst (VinOCR golib (demo 200 [])
          ''https://api.carsxe.com/img/apis/plate_recognition.JPG'')
     = [\<lparr>Method = ''POST'',
         URL = ''https://api.carsxe.com/v1/vinocr?key=YOUR_API_KEY&source=go'',
         Header = [(''Content-Type'', ''application/json'')],
         ReqBody = Some (''{'' @ json_quote ''image'' @ '':''
           @ json_quote ''https://api.carsxe.com/img/apis/plate_recognition.JPG'' @ ''}'' @ [CHR 0x0A])\<rparr>]"
proof -
  let ?img = "''https://api.carsxe.com/img/apis/plate_recognition.JPG''"
  have "TrimSpace ?img \<noteq> []"
    by code_simp
  then have img: "\<not> whitespace_only ?img"
    by (simp add: TrimSpace_empty_iff)
  have url1: "buildURL golib (demo 200 []) ''platerecognition'' []
      = Inr ''https://api.carsxe.com/platerecognition?key=YOUR_API_KEY&source=go''"
    by code_simp
  have url2: "buildURL golib (demo 200 []) ''v1/vinocr'' []
      = Inr ''https://api.carsxe.com/v1/vinocr?key=YOUR_API_KEY&source=go''"
    by code_simp
  have u1: "url_Parse golib ''https://api.carsxe.com/platerecognition?key=YOUR_API_KEY&source=go''
      = Inr \<lparr>Head = ''https://api.carsxe.com/platerecognition'', ForceQuery = False,
            RawQuery = ''key=YOUR_API_KEY&source=go'', Tail = []\<rparr>"
    by code_simp
  have u2: "url_Parse golib ''https://api.carsxe.com/v1/vinocr?key=YOUR_API_KEY&source=go''
      = Inr \<lparr>Head = ''https://api.carsxe.com/v1/vinocr'', ForceQuery = False,
            RawQuery = ''key=YOUR_API_KEY&source=go'', Tail = []\<rparr>"
    by code_simp
  have enc: "json_Encode golib [(''image'', ?img)]
      = Inr (''{'' @ json_quote ''image'' @ '':'' @ json_quote ?img @ ''}'' @ [CHR 0x0A])"
    by (simp add: golib_def plain_Encode_def)
  show ?thesis
    using img image_endpoints_post_json [OF img url1 url2 u1 u2 enc]
    by simp
qed

subsection \<open>Responses\<close>

text \<open>
  C5. When the transport answers with a 2xx status and the body read is empty,
  \<open>doRequest\<close> returns the empty mapping and no error, in both variants.
\<close>

theorem empty_body_gives_empty_mapping:
  assumes "httpClient c req = Inr resp"
    and "Body resp = Inr []"
    and "200 \<le> StatusCode resp" and "StatusCode resp < 300"
  shows "doRequest L c req = ([req], Inr Map.empty)
     \<and> doRequest_panic L c req = ([req], Inr Map.empty)"
  using assms by (simp add: doRequest_def doRequest_panic_def)

theorem empty_body_gives_empty_mapping_witness:
  "httpClient (demo 204 []) \<lparr>Method = ''GET'', URL = ''https://api.carsxe.com/specs'', Header = [], ReqBody = None\<rparr>
     = Inr \<lparr>StatusCode = 204, Body = Inr []\<rparr>
   \<and> doRequest golib (demo 204 []) \<lparr>Method = ''GET'', URL = ''https://api.carsxe.com/specs'', Header = [], ReqBody = None\<rparr>
     = ([\<lparr>Method = ''GET'', URL = ''https://api.carsxe.com/specs'', Header = [], ReqBody = None\<rparr>], Inr Map.empty)
   \<and> doRequest_panic golib (demo 204 []) \<lparr>Method = ''GET'', URL = ''https://api.carsxe.com/specs'', Header = [], ReqBody = None\<rparr>
     = ([\<lparr>Method = ''GET'', URL = ''https://api.carsxe.com/specs'', Header = [], ReqBody = None\<rparr>], Inr Map.empty)"
proof -
  have sent: "httpClient (demo 204 []) req = Inr \<lparr>StatusCode = 204, Body = Inr []\<rparr>" for req
    by (simp add: demo_def New_def answer_def)
  show ?thesis
    using sent empty_body_gives_empty_mapping [OF sent, where L = golib] by simp
qed

text \<open>
  C6. When the transport answers with a 2xx status and a body that is not empty and that
  \<^verbatim>\<open>json.Unmarshal\<close> does not decode into a \<^verbatim>\<open>map[string]any\<close>, \<open>doRequest\<close> fails: with a
  decode error whose message ends with the raw body between \<^verbatim>\<open>(body=\<close> and \<^verbatim>\<open>)\<close>, and in the
  panic-style variant with a panic whose message does.
\<close>

theorem malformed_body_error_has_body:
  assumes "httpClient c req = Inr resp"
    and "Body resp = Inr bodyBytes" and "bodyBytes \<noteq> []"
    and "200 \<le> StatusCode resp" and "StatusCode resp < 300"
    and "json_Unmarshal L bodyBytes = Inl err"
  shows "doRequest L c req = ([req], Inl (DecodeError err bodyBytes))
     \<and> Error (DecodeError err bodyBytes)
         = ''carsxe: decode error: '' @ err @ '' (body='' @ bodyBytes @ '')''
     \<and> doRequest_panic L c req
         = ([req], Inl (Panic (''Failed to decode JSON: '' @ err @ '' (body='' @ bodyBytes @ '')'')))"
  using assms by (simp add: doRequest_def doRequest_panic_def)

theorem malformed_body_error_has_body_witness:
  "httpClient (demo 200 ''<html>'') \<lparr>Method = ''GET'', URL = ''https://api.carsxe.com/specs'', Header = [], ReqBody = None\<rparr>
     = Inr \<lparr>StatusCode = 200, Body = Inr ''<html>''\<rparr>
   \<and> json_Unmarshal golib ''<html>'' = Inl ''invalid character looking for beginning of value''
   \<and> snd (doRequest golib (demo 200 ''<html>'') \<lparr>Method = ''GET'', URL = ''https://api.carsxe.com/specs'', Header = [], ReqBody = None\<rparr>)
     = Inl (DecodeError ''invalid character looking for beginning of value'' ''<html>'')
   \<and> Error (DecodeError ''invalid character looking for beginning of value'' ''<html>'')
     = ''carsxe: decode error: invalid character looking for beginning of value (body=<html>)''
   \<and> snd (doRequest_panic golib (demo 200 ''<html>'') \<lparr>Method = ''GET'', URL = ''https://api.carsxe.com/specs'', Header = [], ReqBody = None\<rparr>)
     = Inl (Panic ''Failed to decode JSON: invalid character looking for beginning of value (body=<html>)'')"
proof -
  have sent: "httpClient (demo 200 ''<html>'') req = Inr \<lparr>StatusCode = 200, Body = Inr ''<html>''\<rparr>" for req
    by (simp add: demo_def New_def answer_def)
  have undecoded: "json_Unmarshal golib ''<html>'' = Inl ''invalid character looking for beginning of value''"
    by (simp add: golib_def plain_Unmarshal_def)
  show ?thesis
    using sent undecoded
      malformed_body_error_has_body [OF sent _ _ _ _ undecoded]
    by simp
qed

text \<open>
  C4, as the code has it. When the transport answers with a status below 200 or from 300
  on, \<open>doRequest\<close> of the error-returning client returns no mapping but the error
  \<open>Non2xx\<close>, whose message holds the status code in decimal and the body. The panic-style
  \<open>doRequest\<close> never reads the status code: it treats the response as it treats the same
  response with status 200.
\<close>

theorem non_2xx_is_error_when_checked:
  assumes "httpClient c req = Inr resp"
    and "Body resp = Inr bodyBytes"
    and "StatusCode resp < 200 \<or> 300 \<le> StatusCode resp"
  shows "doRequest L c req = ([req], Inl (Non2xx (StatusCode resp) bodyBytes))
     \<and> Error (Non2xx (StatusCode resp) bodyBytes)
         = ''carsxe: non-2xx response ('' @ itoa (StatusCode resp) @ ''): '' @ bodyBytes
     \<and> doRequest_panic L c req
         = ([req], snd (doRequest_panic L (c\<lparr>httpClient := \<lambda>r. Inr (resp\<lparr>StatusCode := 200\<rparr>)\<rparr>) req))"
  using assms by (auto simp: doRequest_def doRequest_panic_def)

theorem non_2xx_is_error_when_checked_witness:
  "httpClient (demo 404 ''Not Found'') \<lparr>Method = ''GET'', URL = ''https://api.carsxe.com/specs'', Header = [], ReqBody = None\<rparr>
     = Inr \<lparr>StatusCode = 404, Body = Inr ''Not Found''\<rparr>
   \<and> snd (doRequest golib (demo 404 ''Not Found'') \<lparr>Method = ''GET'', URL = ''https://api.carsxe.com/specs'', Header = [], ReqBody = None\<rparr>)
     = Inl (Non2xx 404 ''Not Found'')
   \<and> Error (Non2xx 404 ''Not Found'') = ''carsxe: non-2xx response (404): Not Found''"
proof -
  have sent: "httpClient (demo 404 ''Not Found'') req = Inr \<lparr>StatusCode = 404, Body = Inr ''Not Found''\<rparr>" for req
    by (simp add: demo_def New_def answer_def)
  have "itoa 404 = ''404''"
    by code_simp
  then show ?thesis
    using sent non_2xx_is_error_when_checked [OF sent, where L = golib]
    by simp
qed

text \<open>
  C4 as it is stated fails in the panic-style variant: a response with status 500 and
  the body \<^verbatim>\<open>{}\<close> gives the decoded mapping, and no panic.
\<close>

theorem non_2xx_panic_variant_counterexample:
  "doRequest_panic golib (demo 500 ''{}'')
      \<lparr>Method = ''GET'', URL = ''https://api.carsxe.com/specs'', Header = [], ReqBody = None\<rparr>
     = ([\<lparr>Method = ''GET'', URL = ''https://api.carsxe.com/specs'', Header = [], ReqBody = None\<rparr>],
        Inr Map.empty)"
  by (simp add: doRequest_panic_def demo_def New_def answer_def golib_def plain_Unmarshal_def)

end
